theory Spec2Isabelle
  imports
    Main
    "HOL-Library.AList"
    "HOL-Library.Char_ord"
    "HOL-Library.List_Lexorder"
    "HOL-Library.Sublist"
begin

section \<open>Values\<close>

text \<open>
  The values that travel through a plan are the values of parsed JSON: \<open>None\<close>, booleans,
  integers, strings, lists and dictionaries with string keys. A Python \<open>dict\<close> keeps its
  items in insertion order, and the engine iterates over them, so a dictionary is an
  association list; \<open>d[k] = v\<close> is \<open>AList.update k v d\<close>, which replaces in place or
  appends at the end. Strings are lists of characters with code points below 256.
\<close>

datatype pyval =
    VNone
  | VBool bool
  | VInt int
  | VStr string
  | VList "pyval list"
  | VDict "(string \<times> pyval) list"

type_synonym pydict = "(string \<times> pyval) list"

text \<open>\<open>d.get(k, default)\<close>\<close>

definition dict_get :: "pydict \<Rightarrow> string \<Rightarrow> pyval \<Rightarrow> pyval" where
  "dict_get d k dflt = (case map_of d k of None \<Rightarrow> dflt | Some v \<Rightarrow> v)"

text \<open>\<open>d.update(e)\<close>: the items of \<open>e\<close> are stored one by one, in order.\<close>

definition dict_update :: "pydict \<Rightarrow> pydict \<Rightarrow> pydict" where
  "dict_update d e = fold (\<lambda>(k, v) acc. AList.update k v acc) e d"

text \<open>The truth value Python gives a value in \<open>if\<close>, \<open>not\<close> and \<open>all\<close>.\<close>

fun truthy :: "pyval \<Rightarrow> bool" where
  "truthy VNone = False"
| "truthy (VBool b) = b"
| "truthy (VInt n) = (n \<noteq> 0)"
| "truthy (VStr s) = (s \<noteq> [])"
| "truthy (VList xs) = (xs \<noteq> [])"
| "truthy (VDict d) = (d \<noteq> [])"

section \<open>Strings\<close>

text \<open>\<open>str(n)\<close> for a non-negative integer, as the f-string \<open>f"result_{i}"\<close> renders it.\<close>

definition digit_char :: "nat \<Rightarrow> char" where
  "digit_char d = ''0123456789'' ! d"

function str_of_nat :: "nat \<Rightarrow> string" where
  "str_of_nat n =
     (if n < 10 then [digit_char n] else str_of_nat (n div 10) @ [digit_char (n mod 10)])"
  by pat_completeness auto
termination
  by (relation "measure id") auto

declare str_of_nat.simps [simp del]

text \<open>\<open>sub in s\<close> on strings: \<open>sub\<close> occurs in \<open>s\<close> as a contiguous run.\<close>

fun contains :: "string \<Rightarrow> string \<Rightarrow> bool" where
  "contains [] sub = (sub = [])"
| "contains (c # cs) sub = (prefix sub (c # cs) \<or> contains cs sub)"

text \<open>\<open>s.split(sep)\<close> for a one-character separator.\<close>

fun split_on :: "char \<Rightarrow> string \<Rightarrow> string list" where
  "split_on sep [] = [[]]"
| "split_on sep (c # cs) =
     (if c = sep then [] # split_on sep cs
      else (case split_on sep cs of
              [] \<Rightarrow> [[c]]
            | w # ws \<Rightarrow> (c # w) # ws))"

text \<open>
  \<open>s.strip()\<close>: the white space of Python's \<open>str\<close> among the code points below 256 is
  9 to 13, 28 to 32, 133 and 160.
\<close>

definition is_space :: "char \<Rightarrow> bool" where
  "is_space c =
     (let n = (of_char c :: nat)
      in (9 \<le> n \<and> n \<le> 13) \<or> (28 \<le> n \<and> n \<le> 32) \<or> n = 133 \<or> n = 160)"

definition strip :: "string \<Rightarrow> string" where
  "strip s = rev (dropWhile is_space (rev (dropWhile is_space s)))"

text \<open>
  \<open>max(keys)\<close> over strings: Python compares strings code point by code point, a proper
  prefix being the smaller; the scan keeps the first greatest item. On an empty sequence
  \<open>max\<close> raises \<open>ValueError\<close>, which is \<open>None\<close> here.
\<close>

fun py_max :: "string list \<Rightarrow> string option" where
  "py_max [] = None"
| "py_max (k # ks) = Some (fold (\<lambda>x m. if m < x then x else m) ks k)"

section \<open>Reference resolution\<close>

text \<open>
  The execution context of \<open>ExecutionEngine\<close> maps the key \<open>result_<i>\<close> to the result
  dictionary recorded for call \<open>i\<close>.
\<close>

type_synonym execution_context = "(string \<times> pydict) list"

text \<open>\<open>result.get('data', result)\<close>\<close>

definition payload :: "pydict \<Rightarrow> pyval" where
  "payload result = dict_get result ''data'' (VDict result)"

text \<open>
  The last loop of \<open>_resolve_reference\<close>: the first context key that has the reference
  as a substring gives the value; with no such key the reference is not resolved and the
  function returns \<open>None\<close>.
\<close>

fun scan_context :: "execution_context \<Rightarrow> string \<Rightarrow> pyval" where
  "scan_context [] reference = VNone"
| "scan_context ((context_key, context_value) # rest) reference =
     (if contains context_key reference then payload context_value
      else scan_context rest reference)"

text \<open>
  The loop over the parts of a dotted reference: \<open>obj\<close> is replaced by \<open>obj[part]\<close> as long
  as it is a dictionary that has the part; otherwise the function returns \<open>None\<close>.
\<close>

fun walk_parts :: "pyval \<Rightarrow> string list \<Rightarrow> pyval" where
  "walk_parts obj [] = obj"
| "walk_parts obj (part # parts) =
     (case obj of
        VDict d \<Rightarrow> (case map_of d part of
                      Some v \<Rightarrow> walk_parts v parts
                    | None \<Rightarrow> VNone)
      | _ \<Rightarrow> VNone)"

definition context_value :: "execution_context \<Rightarrow> pyval" where
  "context_value ctx = VDict (map (\<lambda>(k, r). (k, VDict r)) ctx)"

text \<open>
  \<open>_resolve_reference\<close>. The branches are an \<open>if\<close>/\<open>elif\<close>/\<open>elif\<close> chain: the first
  condition that holds selects the branch, and a branch whose inner test fails falls
  through to the scan over the context keys. Every exception is caught and gives \<open>None\<close>.
\<close>

definition resolve_reference :: "execution_context \<Rightarrow> string \<Rightarrow> pyval" where
  "resolve_reference ctx reference =
     (if reference = ''output_from_previous'' then
        (if ctx \<noteq> [] then
           (case py_max (map fst ctx) of
              None \<Rightarrow> VNone
            | Some latest_key \<Rightarrow>
                (case map_of ctx latest_key of
                   None \<Rightarrow> VNone
                 | Some latest_result \<Rightarrow> payload latest_result))
         else scan_context ctx reference)
      else if prefix ''result_'' reference then
        (case map_of ctx reference of
           Some result \<Rightarrow> payload result
         | None \<Rightarrow> scan_context ctx reference)
      else if CHR ''.'' \<in> set reference then
        walk_parts (context_value ctx) (split_on CHR ''.'' reference)
      else scan_context ctx reference)"

text \<open>
  \<open>_process_parameters\<close>: a string value that starts with two opening and ends with two
  closing braces is a reference; \<open>value[2:-2].strip()\<close> is resolved. Every other value is
  kept.
\<close>

definition resolve_value :: "execution_context \<Rightarrow> pyval \<Rightarrow> pyval" where
  "resolve_value ctx v =
     (case v of
        VStr s \<Rightarrow>
          (if prefix ''{{'' s \<and> suffix ''}}'' s
           then resolve_reference ctx (strip (drop 2 (take (length s - 2) s)))
           else v)
      | _ \<Rightarrow> v)"

definition process_parameters :: "execution_context \<Rightarrow> pydict \<Rightarrow> pydict" where
  "process_parameters ctx ps = map (\<lambda>(key, v). (key, resolve_value ctx v)) ps"

section \<open>The function registry\<close>

text \<open>
  An operation of the library does file, network or process work: \<open>execute\<close> takes the
  processed parameters and the state of the outside world \<open>'w\<close>, and either raises (the
  left injection carries \<open>str(e)\<close>) or returns a dictionary, together with the new state of
  the world. A return value that is not a dictionary makes the \<open>result.update\<close> of the
  engine raise, so it is the raising case too.
\<close>

record function_parameter =
  fp_name :: string
  fp_required :: "bool option"

record 'w base_function =
  bf_name :: string
  bf_description :: string
  bf_category :: string
  bf_parameters :: "function_parameter list"
  bf_execute :: "pydict \<Rightarrow> 'w \<Rightarrow> (string + pydict) \<times> 'w"

text \<open>The dictionary \<open>to_dict\<close> returns; of its keys, those the validator reads.\<close>

record function_schema =
  fs_name :: string
  fs_parameters :: "function_parameter list option"

definition to_dict :: "'w base_function \<Rightarrow> function_schema" where
  "to_dict f = \<lparr>fs_name = bf_name f, fs_parameters = Some (bf_parameters f)\<rparr>"

record 'w function_registry =
  fr_functions :: "(string \<times> 'w base_function) list"
  fr_categories :: "(string \<times> string list) list"

definition empty_registry :: "'w function_registry" where
  "empty_registry = \<lparr>fr_functions = [], fr_categories = []\<rparr>"

text \<open>
  \<open>FunctionRegistry.register\<close>: a dictionary assignment under the function's name, and the
  name appended to the list of its category. It returns nothing and raises nothing.
\<close>

definition register :: "'w function_registry \<Rightarrow> 'w base_function \<Rightarrow> 'w function_registry" where
  "register reg f =
     (let fs = AList.update (bf_name f) f (fr_functions reg);
          cats = (if map_of (fr_categories reg) (bf_category f) = None
                  then AList.update (bf_category f) [] (fr_categories reg)
                  else fr_categories reg);
          names = (case map_of cats (bf_category f) of None \<Rightarrow> [] | Some ns \<Rightarrow> ns)
      in \<lparr>fr_functions = fs,
          fr_categories = AList.update (bf_category f) (names @ [bf_name f]) cats\<rparr>)"

definition get_function :: "'w function_registry \<Rightarrow> string \<Rightarrow> 'w base_function option" where
  "get_function reg n = map_of (fr_functions reg) n"

definition get_function_schemas :: "'w function_registry \<Rightarrow> function_schema list" where
  "get_function_schemas reg = map (\<lambda>(n, f). to_dict f) (fr_functions reg)"

section \<open>Plans\<close>

text \<open>
  A call of a plan is the dictionary \<open>{"function_name": string, "parameters": object,
  "description": string}\<close>; each key may be absent, and the code tests for that.
\<close>

record call =
  function_name :: "string option"
  parameters :: "pydict option"
  description :: "string option"

text \<open>
  The engine takes the items of \<open>function_calls\<close> as they come. An item that is not a
  dictionary has no \<open>get\<close>, and the engine has a handler for that, so such an item is a
  value of its own: \<open>None\<close>, a boolean, an integer, a string or a list.
\<close>

datatype non_dict =
    NDNone
  | NDBool bool
  | NDInt int
  | NDStr string
  | NDList "pyval list"

datatype plan_item = Call call | NotDict non_dict

text \<open>
  The messages of the validator. The fourth joins the items of a Python \<open>set\<close>, whose
  order is not fixed, so a message is kept as its kind, the number \<open>i + 1\<close> of the call and
  what it names.
\<close>

datatype validation_error =
    MissingFunctionName nat
  | UnknownFunction nat string
  | MissingParameters nat
  | MissingRequiredParameters nat "string set"

text \<open>
  A plan is the dictionary the planner returns, with the keys \<open>process_query\<close> adds
  (the query texts and the time stamp are left out). The key \<open>function_calls\<close>, when
  present, holds a list. The type of its items is a parameter: the query processor
  works on the plans of the planner, whose items are calls (\<open>call plan\<close>); the engine
  takes a plan with any items (\<open>plan_item plan\<close>).
\<close>

record 'c plan =
  plan_text :: "string option"
  function_calls :: "'c list option"
  valid :: "bool option"
  errors :: "validation_error list option"
  error :: "string option"

text \<open>\<open>plan.get('function_calls', [])\<close>\<close>

definition get_function_calls :: "'c plan \<Rightarrow> 'c list" where
  "get_function_calls p = (case function_calls p of None \<Rightarrow> [] | Some calls \<Rightarrow> calls)"

text \<open>A plan of calls, as the plan with any items that it is.\<close>

definition plan_items :: "call plan \<Rightarrow> plan_item plan" where
  "plan_items p =
     \<lparr>plan_text = plan_text p,
      function_calls = map_option (map Call) (function_calls p),
      valid = valid p,
      errors = errors p,
      error = error p\<rparr>"

section \<open>The validator\<close>

text \<open>\<open>p.get('required', True)\<close>\<close>

definition is_required :: "function_parameter \<Rightarrow> bool" where
  "is_required q = (case fp_required q of None \<Rightarrow> True | Some b \<Rightarrow> b)"

text \<open>
  The body of the loop of \<open>validate_function_calls\<close> for the call at index \<open>i\<close>: each
  failed check appends one message and goes on with the next call.
\<close>

definition validate_call ::
  "function_schema list \<Rightarrow> nat \<Rightarrow> call \<Rightarrow> validation_error list \<Rightarrow> validation_error list" where
  "validate_call available_functions i c errs =
     (case function_name c of
        None \<Rightarrow> errs @ [MissingFunctionName (i + 1)]
      | Some fname \<Rightarrow>
          if fname \<notin> set (map fs_name available_functions)
          then errs @ [UnknownFunction (i + 1) fname]
          else (case parameters c of
                  None \<Rightarrow> errs @ [MissingParameters (i + 1)]
                | Some ps \<Rightarrow>
                    (case find (\<lambda>f. fs_name f = fname) available_functions of
                       None \<Rightarrow> errs
                     | Some func_def \<Rightarrow>
                         (let required_params =
                                map fp_name
                                  (filter is_required
                                     (case fs_parameters func_def of None \<Rightarrow> [] | Some l \<Rightarrow> l));
                              provided_params = set (map fst ps);
                              missing_params = set required_params - provided_params
                          in if missing_params \<noteq> {}
                             then errs @ [MissingRequiredParameters (i + 1) missing_params]
                             else errs))))"

fun validate_loop ::
  "function_schema list \<Rightarrow> nat \<Rightarrow> call list \<Rightarrow> validation_error list \<Rightarrow> validation_error list" where
  "validate_loop available_functions i [] errs = errs"
| "validate_loop available_functions i (c # rest) errs =
     validate_loop available_functions (Suc i) rest (validate_call available_functions i c errs)"

definition validate_function_calls ::
  "call list \<Rightarrow> function_schema list \<Rightarrow> bool \<times> validation_error list" where
  "validate_function_calls calls available_functions =
     (let errs = validate_loop available_functions 0 calls []
      in (length errs = 0, errs))"

section \<open>The optimizer\<close>

text \<open>
  \<open>json.dumps(v, sort_keys=True)\<close> writes every dictionary with its items sorted by key.
  The text it writes determines the value so written, so two texts are equal exactly when
  the values with sorted items are; the signature of a call keeps that value.
\<close>

primrec json_dumps_sort_keys :: "pyval \<Rightarrow> pyval" where
  "json_dumps_sort_keys VNone = VNone"
| "json_dumps_sort_keys (VBool b) = VBool b"
| "json_dumps_sort_keys (VInt n) = VInt n"
| "json_dumps_sort_keys (VStr s) = VStr s"
| "json_dumps_sort_keys (VList xs) = VList (map json_dumps_sort_keys xs)"
| "json_dumps_sort_keys (VDict d) =
     VDict (sort_key fst (map (map_prod id json_dumps_sort_keys) d))"

datatype py_error = KeyError string

text \<open>\<open>(call['function_name'], json.dumps(call['parameters'], sort_keys=True))\<close>\<close>

definition call_signature :: "call \<Rightarrow> py_error + (string \<times> pyval)" where
  "call_signature c =
     (case function_name c of
        None \<Rightarrow> Inl (KeyError ''function_name'')
      | Some fname \<Rightarrow>
          (case parameters c of
             None \<Rightarrow> Inl (KeyError ''parameters'')
           | Some ps \<Rightarrow> Inr (fname, json_dumps_sort_keys (VDict ps))))"

fun optimize_loop ::
  "call list \<Rightarrow> (string \<times> pyval) set \<Rightarrow> call list \<Rightarrow> py_error + call list" where
  "optimize_loop [] seen optimized = Inr optimized"
| "optimize_loop (c # rest) seen optimized =
     (case call_signature c of
        Inl e \<Rightarrow> Inl e
      | Inr sg \<Rightarrow>
          if sg \<notin> seen then optimize_loop rest (insert sg seen) (optimized @ [c])
          else optimize_loop rest seen optimized)"

definition optimize_function_sequence :: "call list \<Rightarrow> py_error + call list" where
  "optimize_function_sequence calls = optimize_loop calls {} []"

section \<open>The plan repairer and the query processor\<close>

text \<open>\<open>if k not in d: d[k] = v\<close>\<close>

definition set_default :: "string \<Rightarrow> pyval \<Rightarrow> pydict \<Rightarrow> pydict" where
  "set_default k v d = (if map_of d k = None then AList.update k v d else d)"

text \<open>The body of the loop of \<open>_fix_common_issues\<close> for one call.\<close>

definition fix_call :: "call \<Rightarrow> call" where
  "fix_call c =
     (let ps = (case parameters c of None \<Rightarrow> [] | Some d \<Rightarrow> d);
          fname = (case function_name c of None \<Rightarrow> [] | Some n \<Rightarrow> n);
          ps' =
            (if fname = ''send_email'' then
               set_default ''body'' (VStr ''This is an automated email.'')
                 (set_default ''subject'' (VStr ''Automated Email'')
                    (set_default ''to_email'' (VStr ''abhayrajputcse@gmail.com'') ps))
             else if fname = ''read_csv'' then
               set_default ''file_path'' (VStr ''data/sample.csv'') ps
             else if fname = ''read_file'' then
               set_default ''file_path'' (VStr ''data/sample.txt'') ps
             else ps)
      in c\<lparr>parameters := Some ps'\<rparr>)"

definition fix_common_issues :: "call plan \<Rightarrow> validation_error list \<Rightarrow> call plan" where
  "fix_common_issues p errs =
     (case function_calls p of
        None \<Rightarrow> p
      | Some calls \<Rightarrow> p\<lparr>function_calls := Some (map fix_call calls)\<rparr>)"

text \<open>\<open>str(e)\<close> of a \<open>KeyError\<close> is the key between single quotes.\<close>

fun str_of_error :: "py_error \<Rightarrow> string" where
  "str_of_error (KeyError k) = [CHR 0x27] @ k @ [CHR 0x27]"

definition create_error_response :: "string \<Rightarrow> call plan" where
  "create_error_response e =
     \<lparr>plan_text = Some ''Error occurred while processing query'',
      function_calls = Some [],
      valid = Some False,
      errors = None,
      error = Some e\<rparr>"

text \<open>
  \<open>QueryProcessor.process_query\<close>, from the plan the planner returned on: validation,
  repair when validation failed, removal of duplicate calls, and the keys \<open>valid\<close> and
  \<open>errors\<close>. An exception raised on the way gives the error response.
\<close>

definition process_query :: "'w function_registry \<Rightarrow> call plan \<Rightarrow> call plan" where
  "process_query reg planned =
     (let available_functions = get_function_schemas reg;
          (is_valid, errs) =
             validate_function_calls (get_function_calls planned) available_functions;
          p = (if \<not> is_valid then fix_common_issues planned errs else planned)
      in case function_calls p of
           None \<Rightarrow> p\<lparr>valid := Some is_valid, errors := Some (if \<not> is_valid then errs else [])\<rparr>
         | Some calls \<Rightarrow>
             (case optimize_function_sequence calls of
                Inl e \<Rightarrow> create_error_response (str_of_error e)
              | Inr optimized \<Rightarrow>
                  p\<lparr>function_calls := Some optimized,
                    valid := Some is_valid,
                    errors := Some (if \<not> is_valid then errs else [])\<rparr>))"

section \<open>The execution engine\<close>

record execution_summary =
  total_functions :: nat
  successful_functions :: nat
  failed_functions :: nat

text \<open>An execution result; the time stamp of the summary is left out.\<close>

record execution_result =
  success :: bool
  message :: string
  er_plan :: "plan_item plan"
  results :: "pydict list"
  execution_summary :: execution_summary

record execution_engine =
  execution_context :: execution_context
  results_history :: "execution_result list"

definition new_engine :: execution_engine where
  "new_engine = \<lparr>execution_context = [], results_history = []\<rparr>"

text \<open>\<open>r.get('success', False)\<close>, as a condition.\<close>

definition succeeded :: "pydict \<Rightarrow> bool" where
  "succeeded r = truthy (dict_get r ''success'' (VBool False))"

definition create_execution_result ::
  "plan_item plan \<Rightarrow> pydict list \<Rightarrow> string \<Rightarrow> bool \<Rightarrow> execution_result" where
  "create_execution_result p rs msg ok =
     \<lparr>success = ok,
      message = msg,
      er_plan = p,
      results = rs,
      execution_summary =
        \<lparr>total_functions = length rs,
         successful_functions = sum_list (map (\<lambda>r. 1) (filter (\<lambda>r. succeeded r) rs)),
         failed_functions = sum_list (map (\<lambda>r. 1) (filter (\<lambda>r. \<not> succeeded r) rs))\<rparr>\<rparr>"

definition critical_functions :: "string list" where
  "critical_functions =
     [''read_csv'', ''read_file'', ''read_json'', ''read_excel'',
      ''query_database'', ''fetch_web_page'']"

definition is_critical_function :: "call \<Rightarrow> bool" where
  "is_critical_function c =
     ((case function_name c of None \<Rightarrow> [] | Some n \<Rightarrow> n) \<in> set critical_functions)"

text \<open>A name that may be \<open>None\<close>, as a value and as \<open>str\<close> renders it.\<close>

definition name_value :: "string option \<Rightarrow> pyval" where
  "name_value n = (case n of None \<Rightarrow> VNone | Some s \<Rightarrow> VStr s)"

definition name_text :: "string option \<Rightarrow> string" where
  "name_text n = (case n of None \<Rightarrow> ''None'' | Some s \<Rightarrow> s)"

text \<open>
  \<open>_execute_single_function\<close>: an unknown name gives a failed result and nothing is
  invoked; otherwise the parameters are processed against the context and the operation
  is invoked. An exception of the operation is caught and gives a failed result.
\<close>

definition execute_single_function ::
  "'w function_registry \<Rightarrow> execution_context \<Rightarrow> call \<Rightarrow> nat \<Rightarrow> 'w \<Rightarrow> pydict \<times> 'w" where
  "execute_single_function reg ctx c call_index w =
     (let fname = function_name c;
          ps = (case parameters c of None \<Rightarrow> [] | Some d \<Rightarrow> d);
          descr = (case description c of None \<Rightarrow> [] | Some d \<Rightarrow> d)
      in case (case fname of None \<Rightarrow> None | Some n \<Rightarrow> get_function reg n) of
           None \<Rightarrow>
             ([(''success'', VBool False),
               (''error'', VStr (''Function '' @ [CHR 0x27] @ name_text fname @ [CHR 0x27] @ '' not found'')),
               (''function_name'', name_value fname),
               (''call_index'', VInt (int call_index))], w)
         | Some f \<Rightarrow>
             (let processed_parameters = process_parameters ctx ps
              in case bf_execute f processed_parameters w of
                   (Inl e, w') \<Rightarrow>
                     ([(''success'', VBool False),
                       (''error'', VStr e),
                       (''function_name'', (case fname of None \<Rightarrow> VStr ''unknown'' | Some n \<Rightarrow> VStr n)),
                       (''call_index'', VInt (int call_index))], w')
                 | (Inr result, w') \<Rightarrow>
                     (dict_update result
                        [(''function_name'', name_value fname),
                         (''call_index'', VInt (int call_index)),
                         (''description'', VStr descr),
                         (''parameters_used'', VDict processed_parameters)], w')))"

text \<open>
  \<open>str(e)\<close> of the \<open>AttributeError\<close> that \<open>call.get\<close> raises on an item that is not a
  dictionary.
\<close>

fun type_name :: "non_dict \<Rightarrow> string" where
  "type_name NDNone = ''NoneType''"
| "type_name (NDBool b) = ''bool''"
| "type_name (NDInt n) = ''int''"
| "type_name (NDStr s) = ''str''"
| "type_name (NDList xs) = ''list''"

definition attribute_error :: "non_dict \<Rightarrow> string" where
  "attribute_error x =
     [CHR 0x27] @ type_name x @ [CHR 0x27] @ '' object has no attribute ''
       @ [CHR 0x27] @ ''get'' @ [CHR 0x27]"

text \<open>
  The loop of \<open>execute_plan\<close> from call index \<open>i\<close> on. The first statement of its body,
  \<open>call.get('function_name', 'unknown')\<close> in the log line, is outside the \<open>try\<close> of
  \<open>_execute_single_function\<close>: on an item that is not a dictionary it raises, and the loop
  is left with the exception (the left injection: its text, the context and the world
  reached). Otherwise the result of the call is appended and stored in the context under
  \<open>result_<i>\<close>, and the loop is left when the call failed and is critical.
\<close>

fun execute_calls ::
  "'w function_registry \<Rightarrow> plan_item list \<Rightarrow> nat \<Rightarrow> pydict list \<Rightarrow> execution_context \<Rightarrow> 'w
     \<Rightarrow> (string \<times> execution_context \<times> 'w) + (pydict list \<times> execution_context \<times> 'w)" where
  "execute_calls reg [] i rs ctx w = Inr (rs, ctx, w)"
| "execute_calls reg (NotDict x # rest) i rs ctx w = Inl (attribute_error x, ctx, w)"
| "execute_calls reg (Call c # rest) i rs ctx w =
     (case execute_single_function reg ctx c i w of
        (result, w') \<Rightarrow>
          (let rs' = rs @ [result];
               ctx' = AList.update (''result_'' @ str_of_nat i) result ctx
           in if \<not> succeeded result \<and> is_critical_function c then Inr (rs', ctx', w')
              else execute_calls reg rest (Suc i) rs' ctx' w'))"

text \<open>
  \<open>execute_plan\<close>. An exception that leaves the loop is caught by the handler of the whole
  method, which returns an unsuccessful result with no results and the message
  \<open>Execution error: ...\<close>; the results recorded so far are dropped, nothing is added to
  the history, and what the calls before have done to the world stays done.
\<close>

definition execute_plan ::
  "'w function_registry \<Rightarrow> execution_engine \<Rightarrow> plan_item plan \<Rightarrow> 'w
     \<Rightarrow> execution_result \<times> execution_engine \<times> 'w" where
  "execute_plan reg engine p w =
     (let calls = get_function_calls p
      in if calls = [] then
           (create_execution_result p [] ''No function calls to execute'' False, engine, w)
         else
           (case execute_calls reg calls 0 [] [] w of
              Inl (e, ctx, w') \<Rightarrow>
                (create_execution_result p [] (''Execution error: '' @ e) False,
                 engine\<lparr>execution_context := ctx\<rparr>,
                 w')
            | Inr (rs, ctx, w') \<Rightarrow>
                (let ok = list_all succeeded rs;
                     execution_result = create_execution_result p rs ''Execution completed'' ok
                 in (execution_result,
                     \<lparr>execution_context = ctx,
                      results_history = results_history engine @ [execution_result]\<rparr>,
                     w'))))"

text \<open>
  \<open>simulate_execution\<close>: one made-up successful result per call, nothing invoked. The
  method has no handler (on an item that is not a dictionary it raises), so it is taken
  on the plans of calls.
\<close>

definition simulated_result :: "nat \<times> call \<Rightarrow> pydict" where
  "simulated_result ic =
     (case ic of (i, c) \<Rightarrow>
        (let fname = (case function_name c of None \<Rightarrow> ''unknown'' | Some n \<Rightarrow> n)
         in [(''success'', VBool True),
             (''function_name'', VStr fname),
             (''call_index'', VInt (int i)),
             (''description'', VStr (case description c of None \<Rightarrow> [] | Some d \<Rightarrow> d)),
             (''simulated'', VBool True),
             (''message'', VStr (''Simulated execution of '' @ fname))]))"

definition simulate_execution :: "call plan \<Rightarrow> execution_result" where
  "simulate_execution p =
     (let calls = get_function_calls p;
          simulated_results = map simulated_result (enumerate 0 calls)
      in create_execution_result (plan_items p) simulated_results ''Simulation completed'' True)"

section \<open>The pipeline manager\<close>

text \<open>
  \<open>PipelineManager.process_query\<close> of an initialized pipeline, from the planner's plan on:
  the processed plan is executed or simulated when \<open>execute\<close> is set, whatever its
  \<open>valid\<close> key says (an invalid plan is only logged).
\<close>

definition pipeline_process_query ::
  "'w function_registry \<Rightarrow> execution_engine \<Rightarrow> call plan \<Rightarrow> bool \<Rightarrow> bool \<Rightarrow> 'w
     \<Rightarrow> call plan \<times> execution_result option \<times> execution_engine \<times> 'w" where
  "pipeline_process_query reg engine planned execute simulate w =
     (let p = process_query reg planned
      in if execute then
           (if simulate then (p, Some (simulate_execution p), engine, w)
            else (case execute_plan reg engine (plan_items p) w of
                    (r, engine', w') \<Rightarrow> (p, Some r, engine', w')))
         else (p, None, engine, w))"

section \<open>An example registry and example plans\<close>

text \<open>
  Three operations for concrete runs. The state of the world counts the invocations, so
  a run shows how many operations it has invoked. \<open>echo\<close> succeeds and returns its
  parameter \<open>value\<close> as \<open>data\<close>; \<open>read_csv\<close> returns an unsuccessful result;
  \<open>send_notification\<close> raises.
\<close>

definition echo_op :: "nat base_function" where
  "echo_op =
     \<lparr>bf_name = ''echo'', bf_description = ''Return the value given'', bf_category = ''test'',
      bf_parameters = [\<lparr>fp_name = ''value'', fp_required = Some True\<rparr>],
      bf_execute =
        (\<lambda>ps w. (Inr [(''success'', VBool True), (''data'', dict_get ps ''value'' VNone)], Suc w))\<rparr>"

definition read_csv_op :: "nat base_function" where
  "read_csv_op =
     \<lparr>bf_name = ''read_csv'', bf_description = ''Read CSV data'', bf_category = ''data'',
      bf_parameters = [\<lparr>fp_name = ''file_path'', fp_required = Some True\<rparr>],
      bf_execute =
        (\<lambda>ps w. (Inr [(''success'', VBool False), (''error'', VStr ''File not found'')], Suc w))\<rparr>"

definition notify_op :: "nat base_function" where
  "notify_op =
     \<lparr>bf_name = ''send_notification'', bf_description = ''Send notification'',
      bf_category = ''communication'',
      bf_parameters = [\<lparr>fp_name = ''title'', fp_required = Some True\<rparr>,
                       \<lparr>fp_name = ''message'', fp_required = Some False\<rparr>],
      bf_execute = (\<lambda>ps w. (Inl ''notification service unreachable'', Suc w))\<rparr>"

definition demo_registry :: "nat function_registry" where
  "demo_registry = register (register (register empty_registry echo_op) read_csv_op) notify_op"

definition mk_call :: "string \<Rightarrow> pydict \<Rightarrow> call" where
  "mk_call n ps = \<lparr>function_name = Some n, parameters = Some ps, description = Some n\<rparr>"

definition mk_plan :: "'c list \<Rightarrow> 'c plan" where
  "mk_plan calls =
     \<lparr>plan_text = Some ''demo'', function_calls = Some calls,
      valid = None, errors = None, error = None\<rparr>"

definition empty_plan :: "'c plan" where
  "empty_plan = mk_plan []"

definition short_circuit_calls :: "call list" where
  "short_circuit_calls =
     [mk_call ''send_notification'' [(''title'', VStr ''start'')],
      mk_call ''read_csv'' [(''file_path'', VStr ''missing.csv'')],
      mk_call ''echo'' [(''value'', VStr ''{{output_from_previous}}'')]]"

text \<open>A plan whose second item is a string, not a dictionary.\<close>

definition shape_fault_plan :: "plan_item plan" where
  "shape_fault_plan =
     mk_plan [Call (mk_call ''echo'' [(''value'', VInt 1)]), NotDict (NDStr ''garbage'')]"

text \<open>Four calls, the first three of them malformed.\<close>

definition malformed_calls :: "call list" where
  "malformed_calls =
     [mk_call ''echo'' [],
      mk_call ''no_such_operation'' [(''value'', VInt 1)],
      \<lparr>function_name = None, parameters = Some [], description = None\<rparr>,
      mk_call ''echo'' [(''value'', VInt 1)]]"



text \<open>
  A plan the repairer completes (the call of \<open>read_csv\<close> lacks its file path), and a plan
  that names an operation the registry does not have.
\<close>

definition repairable_plan :: "call plan" where
  "repairable_plan = mk_plan [mk_call ''read_csv'' []]"

definition unknown_operation_plan :: "call plan" where
  "unknown_operation_plan =
     mk_plan [mk_call ''no_such_operation'' [], mk_call ''echo'' [(''value'', VInt 1)]]"

text \<open>
  A call of \<open>read_json\<close>, an operation with a critical name that the example registry
  does not have.
\<close>

definition read_json_call :: call where
  "read_json_call = mk_call ''read_json'' [(''file_path'', VStr ''data.json'')]"

text \<open>
  The context of the repository's test \<open>test_reference_resolution\<close>, and a plan of twelve
  calls: call \<open>i\<close> echoes the number \<open>i\<close> for \<open>i\<close> from 0 to 10, and the last call
  echoes the output of the previous call.
\<close>

definition test_context :: execution_context where
  "test_context = [(''result_0'', [(''data'', VStr ''test_data''), (''success'', VBool True)])]"

definition twelve_calls :: "call list" where
  "twelve_calls =
     map (\<lambda>n. mk_call ''echo'' [(''value'', VInt n)]) [0, 1, 2, 3, 4, 5, 6, 7, 8, 9, 10]
     @ [mk_call ''echo'' [(''value'', VStr ''{{output_from_previous}}'')]]"

text \<open>A second operation under the name \<open>echo\<close>.\<close>

definition echo_twice_op :: "nat base_function" where
  "echo_twice_op =
     \<lparr>bf_name = ''echo'', bf_description = ''Return the value given, twice'',
      bf_category = ''test'',
      bf_parameters = [\<lparr>fp_name = ''value'', fp_required = Some True\<rparr>],
      bf_execute =
        (\<lambda>ps w. (Inr [(''success'', VBool True),
                        (''data'', VList [dict_get ps ''value'' VNone, dict_get ps ''value'' VNone])],
                   Suc w))\<rparr>"

section \<open>Properties stated by the specification\<close>

text \<open>
  A malformed call, in the words of the specification: it misses the function name, or
  names an operation the registry does not have, or misses the parameters field, or
  misses a parameter that the schema of its operation requires.
\<close>

definition misses_required_parameter :: "function_schema \<Rightarrow> pydict \<Rightarrow> bool" where
  "misses_required_parameter f ps =
     list_ex (\<lambda>q. is_required q \<and> fp_name q \<notin> set (map fst ps))
       (case fs_parameters f of None \<Rightarrow> [] | Some l \<Rightarrow> l)"

definition malformed_call :: "function_schema list \<Rightarrow> call \<Rightarrow> bool" where
  "malformed_call available_functions c =
     (case function_name c of
        None \<Rightarrow> True
      | Some fname \<Rightarrow>
          (case find (\<lambda>f. fs_name f = fname) available_functions of
             None \<Rightarrow> True
           | Some f \<Rightarrow>
               (case parameters c of
                  None \<Rightarrow> True
                | Some ps \<Rightarrow> misses_required_parameter f ps)))"


text \<open>
  The invariant of an execution result: the successful and the failed calls of the
  summary add up to its total, which is the number of recorded results.
\<close>

definition summary_consistent :: "execution_result \<Rightarrow> bool" where
  "summary_consistent r =
     (successful_functions (execution_summary r) + failed_functions (execution_summary r)
        = total_functions (execution_summary r)
      \<and> total_functions (execution_summary r) = length (results r))"


section \<open>Evaluation of concrete runs\<close>

lemmas engine_defs =
  execute_plan_def execute_single_function_def register_def get_function_def empty_registry_def
  process_parameters_def resolve_value_def resolve_reference_def succeeded_def dict_get_def
  is_critical_function_def critical_functions_def dict_update_def create_execution_result_def
  name_value_def name_text_def payload_def new_engine_def get_function_calls_def
  suffix_to_prefix strip_def is_space_def Let_def

lemmas demo_defs =
  demo_registry_def echo_op_def read_csv_op_def notify_op_def mk_call_def mk_plan_def

section \<open>The summary of an execution result\<close>

lemma count_ones: "sum_list (map (\<lambda>r. Suc 0) xs) = length xs"
  by (induction xs) simp_all

lemma summary_consistent_create: "summary_consistent (create_execution_result p rs msg ok)"
  unfolding summary_consistent_def create_execution_result_def
  using sum_length_filter_compl [of "\<lambda>r. succeeded r" rs]
  by (simp add: count_ones)

lemma execute_plan_shape:
  "\<exists>rs msg ok. fst (execute_plan reg engine p w) = create_execution_result p rs msg ok"
  unfolding execute_plan_def Let_def
  by (auto split: prod.splits sum.splits)

text \<open>
  C5. Every execution result the engine builds, for any results, message and flag (so
  also the one of an engine-level failure), the one \<open>execute_plan\<close> returns and the one
  \<open>simulate_execution\<close> returns, has successful + failed = total = number of results.
\<close>

theorem summary_invariant:
  "summary_consistent (create_execution_result p rs msg ok)
   \<and> summary_consistent (fst (execute_plan reg engine p w))
   \<and> summary_consistent (simulate_execution q)"
proof -
  obtain rs' msg' ok' where
    "fst (execute_plan reg engine p w) = create_execution_result p rs' msg' ok'"
    using execute_plan_shape [of reg engine p w] by blast
  then show ?thesis
    by (simp add: summary_consistent_create simulate_execution_def)
qed

section \<open>Empty plans, engine failures and the overall success flag\<close>

lemma execute_plan_empty:
  "get_function_calls p = [] \<Longrightarrow>
   execute_plan reg engine p w =
     (create_execution_result p [] ''No function calls to execute'' False, engine, w)"
  by (simp add: execute_plan_def)

lemma execute_plan_completed:
  "get_function_calls p \<noteq> [] \<Longrightarrow>
   execute_calls reg (get_function_calls p) 0 [] [] w = Inr (rs, ctx, w') \<Longrightarrow>
   execute_plan reg engine p w =
     (create_execution_result p rs ''Execution completed'' (list_all succeeded rs),
      \<lparr>execution_context = ctx,
       results_history = results_history engine
          @ [create_execution_result p rs ''Execution completed'' (list_all succeeded rs)]\<rparr>,
      w')"
  by (simp add: execute_plan_def Let_def)

lemma execute_plan_failed:
  "get_function_calls p \<noteq> [] \<Longrightarrow>
   execute_calls reg (get_function_calls p) 0 [] [] w = Inl (e, ctx, w') \<Longrightarrow>
   execute_plan reg engine p w =
     (create_execution_result p [] (''Execution error: '' @ e) False,
      engine\<lparr>execution_context := ctx\<rparr>,
      w')"
  by (simp add: execute_plan_def Let_def)

text \<open>A loop that ends without an exception has recorded a result, unless no item was left.\<close>

lemma execute_calls_records:
  "execute_calls reg items i rs ctx w = Inr (rs', ctx', w') \<Longrightarrow>
   length rs \<le> length rs' \<and> (items \<noteq> [] \<longrightarrow> length rs < length rs')"
proof (induction items arbitrary: i rs ctx w)
  case Nil
  then show ?case by simp
next
  case (Cons item rest)
  show ?case
  proof (cases item)
    case (NotDict x)
    with Cons.prems show ?thesis by simp
  next
    case (Call c)
    obtain result w1 where single: "execute_single_function reg ctx c i w = (result, w1)"
      by (cases "execute_single_function reg ctx c i w") blast
    show ?thesis
    proof (cases "\<not> succeeded result \<and> is_critical_function c")
      case True
      with Cons.prems Call single show ?thesis by (auto simp: Let_def)
    next
      case False
      with Cons.prems Call single
      have "execute_calls reg rest (Suc i) (rs @ [result])
              (AList.update (''result_'' @ str_of_nat i) result ctx) w1 = Inr (rs', ctx', w')"
        by (auto simp: Let_def)
      from Cons.IH [OF this] show ?thesis by auto
    qed
  qed
qed

lemma simulated_succeeded: "succeeded (simulated_result ic)"
  by (cases ic) (simp add: simulated_result_def succeeded_def dict_get_def Let_def)

text \<open>
  C4, as the claim states it, fails on the empty plan and on a plan with an item that is
  not a dictionary: in both runs no result is recorded, so every recorded result
  succeeded, and yet the flag is false.
\<close>

theorem success_iff_all_counterexample:
  "\<not> (success (fst (execute_plan demo_registry new_engine empty_plan 0))
       = list_all succeeded (results (fst (execute_plan demo_registry new_engine empty_plan 0))))
   \<and> \<not> (success (fst (execute_plan demo_registry new_engine shape_fault_plan 0))
       = list_all succeeded
           (results (fst (execute_plan demo_registry new_engine shape_fault_plan 0))))"
  by (simp add: engine_defs demo_defs empty_plan_def shape_fault_plan_def str_of_nat.simps)

text \<open>
  C4, amended. The flag of the result of \<open>execute_plan\<close> is true exactly when at least
  one result is recorded and every recorded result succeeded. The empty plan and an
  engine-level failure (an exception that leaves the loop) record no result, so their
  flag is false. The flag of the simulation of a plan with at least one call is true
  exactly when at least one result is recorded and every recorded result succeeded.
\<close>

theorem success_iff_all_recorded:
  "success (fst (execute_plan reg engine p w))
     = (results (fst (execute_plan reg engine p w)) \<noteq> []
        \<and> list_all succeeded (results (fst (execute_plan reg engine p w))))
   \<and> (get_function_calls p = [] \<longrightarrow> results (fst (execute_plan reg engine p w)) = [])
   \<and> (get_function_calls p \<noteq> []
        \<and> execute_calls reg (get_function_calls p) 0 [] [] w = Inl (e, ctx, w') \<longrightarrow>
          results (fst (execute_plan reg engine p w)) = []
          \<and> message (fst (execute_plan reg engine p w)) = ''Execution error: '' @ e)
   \<and> (get_function_calls q \<noteq> [] \<longrightarrow>
        success (simulate_execution q)
          = (results (simulate_execution q) \<noteq> []
             \<and> list_all succeeded (results (simulate_execution q))))"
proof -
  have empty: "results (fst (execute_plan reg engine p w)) = []"
    if "get_function_calls p = []"
    using that by (simp add: execute_plan_empty create_execution_result_def)
  have failure: "results (fst (execute_plan reg engine p w)) = []
          \<and> message (fst (execute_plan reg engine p w)) = ''Execution error: '' @ e"
    if "get_function_calls p \<noteq> []"
      and "execute_calls reg (get_function_calls p) 0 [] [] w = Inl (e, ctx, w')"
    using that by (simp add: execute_plan_failed create_execution_result_def)
  have sim: "success (simulate_execution q)
          = (results (simulate_execution q) \<noteq> []
             \<and> list_all succeeded (results (simulate_execution q)))"
    if "get_function_calls q \<noteq> []"
    using that
    by (simp add: simulate_execution_def create_execution_result_def list_all_iff Let_def
        simulated_succeeded enumerate_eq_zip)
  have ex: "success (fst (execute_plan reg engine p w))
     = (results (fst (execute_plan reg engine p w)) \<noteq> []
        \<and> list_all succeeded (results (fst (execute_plan reg engine p w))))"
  proof (cases "get_function_calls p = []")
    case True
    then show ?thesis
      by (simp add: execute_plan_empty create_execution_result_def)
  next
    case False
    show ?thesis
    proof (cases "execute_calls reg (get_function_calls p) 0 [] [] w")
      case (Inl failure)
      obtain e ctx w' where "failure = (e, ctx, w')"
        by (cases failure) auto
      with Inl show ?thesis
        by (simp add: execute_plan_failed [OF False] create_execution_result_def)
    next
      case (Inr completed)
      obtain rs ctx w' where d: "completed = (rs, ctx, w')"
        by (cases completed) auto
      with Inr have run: "execute_calls reg (get_function_calls p) 0 [] [] w = Inr (rs, ctx, w')"
        by simp
      from execute_calls_records [OF run] False have "rs \<noteq> []" by auto
      then show ?thesis
        by (simp add: execute_plan_completed [OF False run] create_execution_result_def)
    qed
  qed
  from sim ex empty failure show ?thesis by blast
qed

theorem success_iff_all_recorded_witness:
  "get_function_calls (mk_plan [mk_call ''echo'' [(''value'', VInt 7)]]) \<noteq> []
   \<and> success (simulate_execution (mk_plan [mk_call ''echo'' [(''value'', VInt 7)]]))
   \<and> results (simulate_execution (mk_plan [mk_call ''echo'' [(''value'', VInt 7)]])) \<noteq> []
   \<and> list_all succeeded
        (results (simulate_execution (mk_plan [mk_call ''echo'' [(''value'', VInt 7)]])))
   \<and> success (fst (execute_plan demo_registry new_engine
                    (mk_plan [Call (mk_call ''echo'' [(''value'', VInt 7)])]) 0))
   \<and> list_all succeeded
        (results (fst (execute_plan demo_registry new_engine
                    (mk_plan [Call (mk_call ''echo'' [(''value'', VInt 7)])]) 0)))
   \<and> get_function_calls shape_fault_plan \<noteq> []
   \<and> execute_calls demo_registry (get_function_calls shape_fault_plan) 0 [] [] 0
       = Inl (attribute_error (NDStr ''garbage''),
              [(''result_0'', fst (execute_single_function demo_registry []
                                     (mk_call ''echo'' [(''value'', VInt 1)]) 0 0))],
              1)
   \<and> \<not> success (fst (execute_plan demo_registry new_engine shape_fault_plan 0))
   \<and> results (fst (execute_plan demo_registry new_engine shape_fault_plan 0)) = []
   \<and> message (fst (execute_plan demo_registry new_engine shape_fault_plan 0))
       = ''Execution error: '' @ attribute_error (NDStr ''garbage'')
   \<and> get_function_calls (empty_plan :: plan_item plan) = []
   \<and> \<not> success (fst (execute_plan demo_registry new_engine empty_plan 0))"
proof -
  let ?q = "mk_plan [mk_call ''echo'' [(''value'', VInt 7)]]"
  let ?p = "mk_plan [Call (mk_call ''echo'' [(''value'', VInt 7)])]"
  have ne: "get_function_calls ?q \<noteq> []"
    by (simp add: get_function_calls_def mk_plan_def)
  have sim: "success (simulate_execution ?q)"
    by (simp add: simulate_execution_def create_execution_result_def Let_def)
  have ok: "success (fst (execute_plan demo_registry new_engine ?p 0))"
    by (simp add: engine_defs demo_defs str_of_nat.simps)
  let ?ctx = "[(''result_0'', fst (execute_single_function demo_registry []
                                     (mk_call ''echo'' [(''value'', VInt 1)]) 0 0))]"
  have calls: "get_function_calls shape_fault_plan \<noteq> []"
    by (simp add: get_function_calls_def shape_fault_plan_def mk_plan_def)
  have fault: "execute_calls demo_registry (get_function_calls shape_fault_plan) 0 [] [] 0
       = Inl (attribute_error (NDStr ''garbage''), ?ctx, 1)"
    by (simp add: engine_defs demo_defs shape_fault_plan_def str_of_nat.simps digit_char_def)
  have none: "get_function_calls (empty_plan :: plan_item plan) = []"
    by (simp add: get_function_calls_def empty_plan_def mk_plan_def)
  note run = success_iff_all_recorded
      [where reg = demo_registry and engine = new_engine and p = ?p and w = 0 and q = ?q]
  note bad = success_iff_all_recorded
      [where reg = demo_registry and engine = new_engine and p = shape_fault_plan and w = 0
         and q = ?q and e = "attribute_error (NDStr ''garbage'')" and ctx = ?ctx and w' = 1]
  note hollow = success_iff_all_recorded
      [where reg = demo_registry and engine = new_engine
         and p = "empty_plan :: plan_item plan" and w = 0 and q = ?q]
  from run ne sim ok
  have a: "results (simulate_execution ?q) \<noteq> []
      \<and> list_all succeeded (results (simulate_execution ?q))
      \<and> list_all succeeded (results (fst (execute_plan demo_registry new_engine ?p 0)))"
    by simp
  from bad calls fault
  have b: "\<not> success (fst (execute_plan demo_registry new_engine shape_fault_plan 0))
      \<and> results (fst (execute_plan demo_registry new_engine shape_fault_plan 0)) = []
      \<and> message (fst (execute_plan demo_registry new_engine shape_fault_plan 0))
          = ''Execution error: '' @ attribute_error (NDStr ''garbage'')"
    by simp
  from hollow none
  have c: "\<not> success (fst (execute_plan demo_registry new_engine empty_plan 0))"
    by simp
  from a b c ne sim ok calls fault none show ?thesis by blast
qed

text \<open>
  The empty plan in \<open>execute_plan\<close>: for a plan whose sequence of calls is empty or
  absent the result is unsuccessful, its message is \<open>No function calls to execute\<close>, no
  result is recorded, and neither the engine nor the world has changed.
\<close>

lemma execute_plan_empty_unsuccessful:
  assumes "function_calls p = None \<or> function_calls p = Some []"
  shows "success (fst (execute_plan reg engine p w)) = False
     \<and> message (fst (execute_plan reg engine p w)) = ''No function calls to execute''
     \<and> results (fst (execute_plan reg engine p w)) = []
     \<and> snd (execute_plan reg engine p w) = (engine, w)"
proof -
  from assms have "get_function_calls p = []"
    by (auto simp: get_function_calls_def)
  then show ?thesis
    by (simp add: execute_plan_empty create_execution_result_def)
qed

text \<open>
  C9. \<open>simulate_execution\<close> has no test for an empty sequence of calls: for every plan
  whose sequence of calls is empty or absent it returns a successful result with the
  message \<open>Simulation completed\<close> and no results, where \<open>execute_plan\<close> returns an
  unsuccessful one with the message \<open>No function calls to execute\<close>.
\<close>

theorem simulation_of_empty_plan_succeeds:
  assumes "function_calls p = None \<or> function_calls p = Some []"
  shows "success (simulate_execution p) = True
     \<and> message (simulate_execution p) = ''Simulation completed''
     \<and> results (simulate_execution p) = []
     \<and> success (fst (execute_plan reg engine (plan_items p) w)) = False
     \<and> message (fst (execute_plan reg engine (plan_items p) w)) = ''No function calls to execute''"
proof -
  from assms have "get_function_calls p = []"
    by (auto simp: get_function_calls_def)
  moreover from assms have "function_calls (plan_items p) = None \<or> function_calls (plan_items p) = Some []"
    by (auto simp: plan_items_def)
  ultimately show ?thesis
    using execute_plan_empty_unsuccessful [of "plan_items p" reg engine w]
    by (simp add: simulate_execution_def create_execution_result_def Let_def)
qed

theorem simulation_of_empty_plan_succeeds_witness:
  "(function_calls (empty_plan :: call plan) = None \<or> function_calls (empty_plan :: call plan) = Some [])
   \<and> success (simulate_execution empty_plan)
   \<and> message (simulate_execution empty_plan) = ''Simulation completed''
   \<and> \<not> success (fst (execute_plan demo_registry new_engine (plan_items empty_plan) 0))"
proof -
  have h: "function_calls (empty_plan :: call plan) = None
           \<or> function_calls (empty_plan :: call plan) = Some []"
    by (simp add: empty_plan_def mk_plan_def)
  from simulation_of_empty_plan_succeeds [OF h, of demo_registry new_engine 0] h
  show ?thesis by simp
qed

section \<open>The critical-failure policy\<close>

lemma single_call_index:
  "execute_single_function reg ctx c i w = (result, w') \<Longrightarrow>
   map_of result ''call_index'' = Some (VInt (int i))"
  by (auto simp: execute_single_function_def Let_def dict_update_def AList.update_conv'
      split: option.splits prod.splits sum.splits)

text \<open>
  The loop from any state, when it ends without an exception: it appends results \<open>new\<close>,
  one per item from the first on, and each of these items is a call; no call but the
  last recorded one is a failed critical call; when items remain, the last recorded one
  is a failed critical call; result \<open>k\<close> carries the index of its call; and the run is
  the run of the items that have a result.
\<close>

lemma execute_calls_new:
  "execute_calls reg items i rs ctx w = Inr (rs', ctx', w') \<Longrightarrow>
   \<exists>new. rs' = rs @ new \<and> length new \<le> length items \<and> (items \<noteq> [] \<longrightarrow> new \<noteq> [])
     \<and> (\<forall>k < length new. \<exists>c. items ! k = Call c
            \<and> (Suc k < length new \<longrightarrow> \<not> (\<not> succeeded (new ! k) \<and> is_critical_function c))
            \<and> (Suc k = length new \<and> length new < length items \<longrightarrow>
                  \<not> succeeded (new ! k) \<and> is_critical_function c)
            \<and> map_of (new ! k) ''call_index'' = Some (VInt (int (i + k))))
     \<and> execute_calls reg (take (length new) items) i rs ctx w = Inr (rs', ctx', w')"
proof (induction items arbitrary: i rs ctx w)
  case Nil
  then show ?case by simp
next
  case (Cons item rest)
  show ?case
  proof (cases item)
    case (NotDict x)
    with Cons.prems show ?thesis by simp
  next
    case (Call c)
    obtain result w1 where single: "execute_single_function reg ctx c i w = (result, w1)"
      by (cases "execute_single_function reg ctx c i w") blast
    let ?ctx1 = "AList.update (''result_'' @ str_of_nat i) result ctx"
    have idx: "map_of result ''call_index'' = Some (VInt (int i))"
      using single by (rule single_call_index)
    show ?thesis
    proof (cases "\<not> succeeded result \<and> is_critical_function c")
      case True
      with Cons.prems Call single have out: "rs' = rs @ [result]" "ctx' = ?ctx1" "w' = w1"
        by (simp_all add: Let_def)
      have "execute_calls reg (take (length [result]) (item # rest)) i rs ctx w
              = Inr (rs', ctx', w')"
        using single True out Call by (simp add: Let_def)
      with True out idx Call show ?thesis
        by (intro exI [of _ "[result]"]) simp
    next
      case False
      with Cons.prems Call single
      have run: "execute_calls reg rest (Suc i) (rs @ [result]) ?ctx1 w1 = Inr (rs', ctx', w')"
        by (auto simp: Let_def)
      from Cons.IH [OF run] obtain new where
        new: "rs' = (rs @ [result]) @ new" "length new \<le> length rest"
          "\<forall>k < length new. \<exists>d. rest ! k = Call d
            \<and> (Suc k < length new \<longrightarrow> \<not> (\<not> succeeded (new ! k) \<and> is_critical_function d))
            \<and> (Suc k = length new \<and> length new < length rest \<longrightarrow>
                  \<not> succeeded (new ! k) \<and> is_critical_function d)
            \<and> map_of (new ! k) ''call_index'' = Some (VInt (int (Suc i + k)))"
          "execute_calls reg (take (length new) rest) (Suc i) (rs @ [result]) ?ctx1 w1
             = Inr (rs', ctx', w')"
          and ne: "rest \<noteq> [] \<longrightarrow> new \<noteq> []"
        by blast
      let ?new = "result # new"
      have a: "rs' = rs @ ?new" using new(1) by simp
      have b: "length ?new \<le> length (item # rest)" using new(2) by simp
      have c: "\<forall>k < length ?new. \<exists>d. (item # rest) ! k = Call d
            \<and> (Suc k < length ?new \<longrightarrow> \<not> (\<not> succeeded (?new ! k) \<and> is_critical_function d))
            \<and> (Suc k = length ?new \<and> length ?new < length (item # rest) \<longrightarrow>
                  \<not> succeeded (?new ! k) \<and> is_critical_function d)
            \<and> map_of (?new ! k) ''call_index'' = Some (VInt (int (i + k)))"
      proof (intro allI impI)
        fix k assume k: "k < length ?new"
        show "\<exists>d. (item # rest) ! k = Call d
            \<and> (Suc k < length ?new \<longrightarrow> \<not> (\<not> succeeded (?new ! k) \<and> is_critical_function d))
            \<and> (Suc k = length ?new \<and> length ?new < length (item # rest) \<longrightarrow>
                  \<not> succeeded (?new ! k) \<and> is_critical_function d)
            \<and> map_of (?new ! k) ''call_index'' = Some (VInt (int (i + k)))"
        proof (cases k)
          case 0
          have "\<not> (Suc 0 = length ?new \<and> length ?new < length (item # rest))"
            using ne by auto
          with 0 False idx Call show ?thesis by auto
        next
          case (Suc j)
          with k have j: "j < length new" by simp
          with new(3) obtain d where
            d: "rest ! j = Call d"
              "Suc j < length new \<longrightarrow> \<not> (\<not> succeeded (new ! j) \<and> is_critical_function d)"
              "Suc j = length new \<and> length new < length rest \<longrightarrow>
                  \<not> succeeded (new ! j) \<and> is_critical_function d"
              "map_of (new ! j) ''call_index'' = Some (VInt (int (Suc i + j)))"
            by blast
          have e1: "?new ! k = new ! j" and e2: "(item # rest) ! k = Call d"
            and e3: "int (i + k) = int (Suc i + j)"
            using Suc d(1) by simp_all
          have e4: "(Suc k < length ?new) = (Suc j < length new)"
            and e5: "(Suc k = length ?new \<and> length ?new < length (item # rest))
                     = (Suc j = length new \<and> length new < length rest)"
            using Suc by auto
          show ?thesis
            unfolding e1 e2 e3 e4 e5 using d(2,3,4) by blast
        qed
      qed
      have f: "execute_calls reg (take (length ?new) (item # rest)) i rs ctx w
                 = Inr (rs', ctx', w')"
        using single False new(4) Call by (auto simp add: Let_def)
      from a b c f show ?thesis
        by (intro exI [of _ ?new]) simp
    qed
  qed
qed

text \<open>
  C3. In a run of \<open>execute_plan\<close> on the items \<open>items\<close>, let result \<open>k\<close> be recorded.
  Item \<open>k\<close> is a call, and the result carries the call index \<open>k\<close>. If the call names a
  critical operation and its result is unsuccessful, the run has recorded exactly
  \<open>k + 1\<close> results, and it is the run of the first \<open>k + 1\<close> items alone: same results,
  same final state of the world, so no later call has been invoked. If the call is not
  a failed critical call (so also when it is a failed call that is not critical) and a
  next item exists, the next item has a recorded result too.
\<close>

theorem critical_failure_short_circuit:
  assumes calls: "function_calls p = Some items"
    and run: "execute_plan reg engine p w = (r, engine', w')"
    and k: "k < length (results r)"
  shows "\<exists>c. items ! k = Call c
         \<and> (is_critical_function c \<and> \<not> succeeded (results r ! k) \<longrightarrow>
            length (results r) = k + 1
            \<and> results (fst (execute_plan reg engine (p\<lparr>function_calls := Some (take (k + 1) items)\<rparr>) w))
                = results r
            \<and> snd (snd (execute_plan reg engine (p\<lparr>function_calls := Some (take (k + 1) items)\<rparr>) w))
                = w')
         \<and> (\<not> (is_critical_function c \<and> \<not> succeeded (results r ! k)) \<and> k + 1 < length items
              \<longrightarrow> k + 1 < length (results r))
         \<and> map_of (results r ! k) ''call_index'' = Some (VInt (int k))"
proof -
  have gc: "get_function_calls p = items"
    using calls by (simp add: get_function_calls_def)
  have ne: "items \<noteq> []"
  proof
    assume "items = []"
    with gc run have "results r = []"
      by (auto simp: execute_plan_def create_execution_result_def)
    with k show False by simp
  qed
  have "\<exists>rs ctx w1. execute_calls reg items 0 [] [] w = Inr (rs, ctx, w1)"
  proof (cases "execute_calls reg items 0 [] [] w")
    case (Inl failure)
    obtain e ctx w1 where "failure = (e, ctx, w1)"
      by (cases failure) auto
    with Inl gc ne run have "results r = []"
      using execute_plan_failed [of p reg w e ctx w1 engine]
      by (auto simp: create_execution_result_def)
    with k show ?thesis by simp
  next
    case (Inr completed)
    then show ?thesis by (cases completed) auto
  qed
  then obtain rs ctx w1 where ec: "execute_calls reg items 0 [] [] w = Inr (rs, ctx, w1)"
    by blast
  from gc ne ec run have r: "results r = rs" and w1: "w1 = w'"
    using execute_plan_completed [of p reg w rs ctx w1 engine]
    by (auto simp: create_execution_result_def)
  from execute_calls_new [OF ec] obtain new where
    new: "rs = [] @ new" "length new \<le> length items"
      "\<forall>j < length new. \<exists>c. items ! j = Call c
            \<and> (Suc j < length new \<longrightarrow> \<not> (\<not> succeeded (new ! j) \<and> is_critical_function c))
            \<and> (Suc j = length new \<and> length new < length items \<longrightarrow>
                  \<not> succeeded (new ! j) \<and> is_critical_function c)
            \<and> map_of (new ! j) ''call_index'' = Some (VInt (int (0 + j)))"
      "execute_calls reg (take (length new) items) 0 [] [] w = Inr (rs, ctx, w1)"
    by blast
  from new(1) have rs: "rs = new" by simp
  have kn: "k < length new" using k r rs by simp
  with new(3) obtain c where
    c: "items ! k = Call c"
      "Suc k < length new \<longrightarrow> \<not> (\<not> succeeded (new ! k) \<and> is_critical_function c)"
      "Suc k = length new \<and> length new < length items \<longrightarrow>
          \<not> succeeded (new ! k) \<and> is_critical_function c"
      "map_of (new ! k) ''call_index'' = Some (VInt (int (0 + k)))"
    by blast
  have idx: "map_of (results r ! k) ''call_index'' = Some (VInt (int k))"
    using c(4) r rs by simp
  let ?q = "p\<lparr>function_calls := Some (take (k + 1) items)\<rparr>"
  have stop: "length (results r) = k + 1
      \<and> results (fst (execute_plan reg engine ?q w)) = results r
      \<and> snd (snd (execute_plan reg engine ?q w)) = w'"
    if crit: "is_critical_function c" and failed: "\<not> succeeded (results r ! k)"
  proof -
    have "\<not> Suc k < length new"
      using c(2) crit failed r rs by blast
    with kn have len: "length new = k + 1" by simp
    have tk: "get_function_calls ?q \<noteq> []"
      using ne by (cases items) (simp_all add: get_function_calls_def)
    from new(4) len
    have "execute_calls reg (get_function_calls ?q) 0 [] [] w = Inr (rs, ctx, w1)"
      by (simp add: get_function_calls_def)
    from execute_plan_completed [OF tk this, of engine]
    have "results (fst (execute_plan reg engine ?q w)) = rs"
      and "snd (snd (execute_plan reg engine ?q w)) = w1"
      by (simp_all add: create_execution_result_def)
    with len r rs w1 show ?thesis by simp
  qed
  have go: "k + 1 < length (results r)"
    if nostop: "\<not> (is_critical_function c \<and> \<not> succeeded (results r ! k))"
      and more: "k + 1 < length items"
  proof (rule ccontr)
    assume "\<not> k + 1 < length (results r)"
    with kn r rs have len: "Suc k = length new" by simp
    with more c(3) have "\<not> succeeded (new ! k) \<and> is_critical_function c" by simp
    then show False using nostop r rs by simp
  qed
  from c(1) stop go idx show ?thesis by blast
qed

theorem critical_failure_short_circuit_witness:
  "function_calls (mk_plan (map Call short_circuit_calls)) = Some (map Call short_circuit_calls)
   \<and> \<not> is_critical_function (short_circuit_calls ! 0)
   \<and> \<not> succeeded (results (fst (execute_plan demo_registry new_engine
                                   (mk_plan (map Call short_circuit_calls)) 0)) ! 0)
   \<and> 0 + 1 < length (results (fst (execute_plan demo_registry new_engine
                                     (mk_plan (map Call short_circuit_calls)) 0)))
   \<and> is_critical_function (short_circuit_calls ! 1)
   \<and> \<not> succeeded (results (fst (execute_plan demo_registry new_engine
                                   (mk_plan (map Call short_circuit_calls)) 0)) ! 1)
   \<and> length (results (fst (execute_plan demo_registry new_engine
                             (mk_plan (map Call short_circuit_calls)) 0))) = 1 + 1
   \<and> length short_circuit_calls = 3
   \<and> snd (snd (execute_plan demo_registry new_engine (mk_plan (map Call short_circuit_calls)) 0)) = 2"
proof -
  let ?items = "map Call short_circuit_calls"
  let ?run = "execute_plan demo_registry new_engine (mk_plan ?items) 0"
  have calls: "function_calls (mk_plan ?items) = Some ?items"
    by (simp add: mk_plan_def)
  have run: "?run = (fst ?run, fst (snd ?run), snd (snd ?run))"
    by simp
  have rs: "map succeeded (results (fst ?run)) = [False, False]"
    by (simp add: engine_defs demo_defs short_circuit_calls_def str_of_nat.simps)
  have w: "snd (snd ?run) = 2"
    by (simp add: engine_defs demo_defs short_circuit_calls_def str_of_nat.simps)
  have len: "length (results (fst ?run)) = 2"
    using arg_cong [OF rs, of length] by simp
  have k0: "0 < length (results (fst ?run))" and k1: "1 < length (results (fst ?run))"
    using len by simp_all
  have failed0: "\<not> succeeded (results (fst ?run) ! 0)"
    using arg_cong [OF rs, of "\<lambda>l. l ! 0"] len by simp
  have failed1: "\<not> succeeded (results (fst ?run) ! 1)"
    using arg_cong [OF rs, of "\<lambda>l. l ! 1"] len by simp
  have crit0: "\<not> is_critical_function (short_circuit_calls ! 0)"
    by (simp add: short_circuit_calls_def mk_call_def is_critical_function_def
        critical_functions_def)
  have crit1: "is_critical_function (short_circuit_calls ! 1)"
    by (simp add: short_circuit_calls_def mk_call_def is_critical_function_def
        critical_functions_def)
  have three: "length short_circuit_calls = 3"
    by (simp add: short_circuit_calls_def)
  have item0: "?items ! 0 = Call (short_circuit_calls ! 0)"
    and item1: "?items ! 1 = Call (short_circuit_calls ! 1)"
    using three by simp_all
  from critical_failure_short_circuit [OF calls run k0] item0 crit0 failed0 three
  have next0: "0 + 1 < length (results (fst ?run))"
    by auto
  from critical_failure_short_circuit [OF calls run k1] item1 crit1 failed1
  have stop1: "length (results (fst ?run)) = 1 + 1"
    by auto
  from next0 stop1 crit0 crit1 failed0 failed1 w calls three
  show ?thesis by simp
qed

section \<open>Registration\<close>

lemma get_function_register:
  "get_function (register reg f) n = (if n = bf_name f then Some f else get_function reg n)"
  by (simp add: get_function_def register_def Let_def AList.update_conv')

text \<open>
  C6, as the claim states it, fails: registering a second operation under the name
  \<open>echo\<close> is accepted, and the entry under that name is the second operation.
\<close>

theorem register_duplicate_counterexample:
  "map_option bf_description (get_function (register empty_registry echo_op) ''echo'')
     = Some ''Return the value given''
   \<and> bf_name echo_twice_op = ''echo''
   \<and> map_option bf_description
        (get_function (register (register empty_registry echo_op) echo_twice_op) ''echo'')
     = Some ''Return the value given, twice''"
  by (simp add: get_function_register echo_op_def echo_twice_op_def)

text \<open>
  C6, amended. \<open>register\<close> always succeeds: afterwards the name of the operation gives
  the operation just registered, whether or not the name was present before; the entries
  under all other names are unchanged; and the name is appended to the list of its
  category once more.
\<close>

theorem register_overwrites:
  "get_function (register reg f) (bf_name f) = Some f
   \<and> (n \<noteq> bf_name f \<longrightarrow> get_function (register reg f) n = get_function reg n)
   \<and> map_of (fr_categories (register reg f)) (bf_category f)
       = Some ((case map_of (fr_categories reg) (bf_category f) of None \<Rightarrow> [] | Some ns \<Rightarrow> ns)
               @ [bf_name f])"
proof -
  have cats: "map_of (fr_categories (register reg f)) (bf_category f)
       = Some ((case map_of (fr_categories reg) (bf_category f) of None \<Rightarrow> [] | Some ns \<Rightarrow> ns)
               @ [bf_name f])"
    by (auto simp: register_def Let_def AList.update_conv')
  then show ?thesis
    by (simp add: get_function_register)
qed

theorem register_overwrites_witness:
  "''read_csv'' \<noteq> bf_name echo_twice_op
   \<and> map_option bf_description
        (get_function (register demo_registry echo_twice_op) (bf_name echo_twice_op))
       = Some ''Return the value given, twice''
   \<and> map_option bf_description (get_function (register demo_registry echo_twice_op) ''read_csv'')
       = Some ''Read CSV data''
   \<and> map_of (fr_categories (register demo_registry echo_twice_op)) ''test'' = Some [''echo'', ''echo'']"
proof -
  have n: "''read_csv'' \<noteq> bf_name echo_twice_op"
    by (simp add: echo_twice_op_def)
  have old: "map_option bf_description (get_function demo_registry ''read_csv'') = Some ''Read CSV data''"
    by (simp add: demo_registry_def get_function_register echo_op_def read_csv_op_def notify_op_def)
  have cat: "bf_category echo_twice_op = ''test''"
    by (simp add: echo_twice_op_def)
  have cats: "map_of (fr_categories demo_registry) ''test'' = Some [''echo'']"
    by (simp add: demo_registry_def register_def empty_registry_def Let_def
        echo_op_def read_csv_op_def notify_op_def)
  have d: "bf_description echo_twice_op = ''Return the value given, twice''"
    by (simp add: echo_twice_op_def)
  have nm: "bf_name echo_twice_op = ''echo''"
    by (simp add: echo_twice_op_def)
  from register_overwrites [of demo_registry echo_twice_op "''read_csv''"] n old cat cats d nm
  show ?thesis by simp
qed

section \<open>Validation\<close>

lemma find_known:
  "fname \<in> set (map fs_name fs) \<Longrightarrow> \<exists>f. find (\<lambda>f. fs_name f = fname) fs = Some f"
  by (induction fs) auto

lemma find_unknown:
  "fname \<notin> set (map fs_name fs) \<Longrightarrow> find (\<lambda>f. fs_name f = fname) fs = None"
  by (induction fs) auto

lemma missing_params_iff:
  "(set (map fp_name (filter is_required (case fs_parameters f of None \<Rightarrow> [] | Some l \<Rightarrow> l)))
      - set (map fst ps) \<noteq> {})
   = misses_required_parameter f ps"
  by (auto simp: misses_required_parameter_def list_ex_iff)

text \<open>One pass of the loop appends exactly one message for a malformed call, and none otherwise.\<close>

lemma validate_call_length:
  "length (validate_call fs i c errs) = length errs + (if malformed_call fs c then 1 else 0)"
proof (cases "function_name c")
  case None
  then show ?thesis by (simp add: validate_call_def malformed_call_def)
next
  case (Some fname)
  show ?thesis
  proof (cases "fname \<in> set (map fs_name fs)")
    case False
    with Some find_unknown [OF False] show ?thesis
      by (simp add: validate_call_def malformed_call_def)
  next
    case True
    then obtain f where f: "find (\<lambda>f. fs_name f = fname) fs = Some f"
      using find_known by blast
    show ?thesis
    proof (cases "parameters c")
      case None
      with Some True f show ?thesis
        by (simp add: validate_call_def malformed_call_def)
    next
      case (Some ps)
      with \<open>function_name c = Some fname\<close> True f missing_params_iff [of f ps] show ?thesis
        by (simp add: validate_call_def malformed_call_def Let_def)
    qed
  qed
qed

lemma validate_loop_length:
  "length (validate_loop fs i calls errs) = length errs + length (filter (malformed_call fs) calls)"
  by (induction calls arbitrary: i errs) (simp_all add: validate_call_length)

text \<open>
  C8. The validator returns exactly one message for each malformed call of the plan, so
  at least as many messages as there are malformed calls, whatever their positions; the
  flag is true exactly when the list of messages is empty, and so false exactly when
  some call is malformed.
\<close>

theorem validate_accumulates:
  "length (snd (validate_function_calls calls fs)) = length (filter (malformed_call fs) calls)
   \<and> length (filter (malformed_call fs) calls) \<le> length (snd (validate_function_calls calls fs))
   \<and> fst (validate_function_calls calls fs) = (snd (validate_function_calls calls fs) = [])
   \<and> fst (validate_function_calls calls fs) = (\<not> list_ex (malformed_call fs) calls)"
proof -
  have len: "length (snd (validate_function_calls calls fs)) = length (filter (malformed_call fs) calls)"
    by (simp add: validate_function_calls_def Let_def validate_loop_length)
  have flag: "fst (validate_function_calls calls fs) = (snd (validate_function_calls calls fs) = [])"
    by (simp add: validate_function_calls_def Let_def)
  have "(snd (validate_function_calls calls fs) = []) = (filter (malformed_call fs) calls = [])"
    using len by (metis length_0_conv)
  also have "\<dots> = (\<not> list_ex (malformed_call fs) calls)"
    by (simp add: filter_empty_conv list_ex_iff)
  finally show ?thesis using len flag by simp
qed

theorem validate_accumulates_witness:
  "length (filter (malformed_call (get_function_schemas demo_registry)) malformed_calls) = 3
   \<and> length (snd (validate_function_calls malformed_calls (get_function_schemas demo_registry))) = 3
   \<and> \<not> fst (validate_function_calls malformed_calls (get_function_schemas demo_registry))"
proof -
  have n: "length (filter (malformed_call (get_function_schemas demo_registry)) malformed_calls) = 3"
    by (simp add: malformed_calls_def malformed_call_def misses_required_parameter_def
        is_required_def get_function_schemas_def to_dict_def demo_defs register_def
        empty_registry_def Let_def)
  then have "filter (malformed_call (get_function_schemas demo_registry)) malformed_calls \<noteq> []"
    by (metis length_0_conv zero_neq_numeral)
  then have "list_ex (malformed_call (get_function_schemas demo_registry)) malformed_calls"
    by (simp add: filter_empty_conv list_ex_iff)
  moreover from validate_accumulates [of malformed_calls "get_function_schemas demo_registry"]
  have "length (snd (validate_function_calls malformed_calls (get_function_schemas demo_registry)))
          = length (filter (malformed_call (get_function_schemas demo_registry)) malformed_calls)"
    and "fst (validate_function_calls malformed_calls (get_function_schemas demo_registry))
          = (\<not> list_ex (malformed_call (get_function_schemas demo_registry)) malformed_calls)"
    by blast+
  ultimately show ?thesis using n by simp
qed

section \<open>Removal of duplicate calls\<close>


lemma call_signature_Inr:
  "function_name c \<noteq> None \<Longrightarrow> parameters c \<noteq> None \<Longrightarrow> \<exists>sg. call_signature c = Inr sg"
  by (auto simp: call_signature_def)

text \<open>The loop returns when every call has a function name and parameters.\<close>

lemma optimize_loop_returns:
  "\<forall>c \<in> set calls. function_name c \<noteq> None \<and> parameters c \<noteq> None \<Longrightarrow>
   \<exists>out. optimize_loop calls seen acc = Inr out"
proof (induction calls arbitrary: seen acc)
  case Nil
  then show ?case by simp
next
  case (Cons c rest)
  then obtain sg where "call_signature c = Inr sg"
    using call_signature_Inr [of c] by auto
  with Cons show ?case by simp
qed




text \<open>A valid plan has no malformed call, so each of its calls has a name and parameters.\<close>

lemma wellformed_complete:
  "\<not> malformed_call fs c \<Longrightarrow> function_name c \<noteq> None \<and> parameters c \<noteq> None"
  by (auto simp: malformed_call_def split: option.splits)

lemma valid_calls_complete:
  assumes "fst (validate_function_calls calls fs)"
  shows "\<forall>c \<in> set calls. function_name c \<noteq> None \<and> parameters c \<noteq> None"
proof -
  have "length (snd (validate_function_calls calls fs)) = 0"
    using assms by (simp add: validate_function_calls_def Let_def)
  then have "filter (malformed_call fs) calls = []"
    by (simp add: validate_function_calls_def Let_def validate_loop_length)
  then have "\<forall>c \<in> set calls. \<not> malformed_call fs c"
    by (simp add: filter_empty_conv)
  then show ?thesis
    using wellformed_complete by blast
qed


text \<open>What \<open>process_query\<close> returns, by the outcome of validation and of the optimizer.\<close>

lemma process_query_cases:
  assumes "function_calls planned = Some calls"
  shows "process_query reg planned =
     (let ok = fst (validate_function_calls calls (get_function_schemas reg));
          errs = snd (validate_function_calls calls (get_function_schemas reg));
          calls' = (if ok then calls else map fix_call calls)
      in case optimize_function_sequence calls' of
           Inl e \<Rightarrow> create_error_response (str_of_error e)
         | Inr optimized \<Rightarrow>
             planned\<lparr>function_calls := Some optimized, valid := Some ok,
                     errors := Some (if ok then [] else errs)\<rparr>)"
  using assms
  by (cases "validate_function_calls calls (get_function_schemas reg)")
     (auto simp: process_query_def get_function_calls_def fix_common_issues_def Let_def
        split: sum.splits)



section \<open>Validation, repair and execution\<close>

lemma process_query_valid:
  "valid (process_query reg planned)
     = Some (fst (validate_function_calls (get_function_calls planned) (get_function_schemas reg)))"
proof (cases "function_calls planned")
  case None
  then show ?thesis
    by (simp add: process_query_def get_function_calls_def validate_function_calls_def Let_def)
next
  case (Some calls)
  let ?ok = "fst (validate_function_calls calls (get_function_schemas reg))"
  let ?calls' = "if ?ok then calls else map fix_call calls"
  have gc: "get_function_calls planned = calls"
    using Some by (simp add: get_function_calls_def)
  show ?thesis
  proof (cases "optimize_function_sequence ?calls'")
    case (Inr optimized)
    with Some gc show ?thesis
      by (simp add: process_query_cases Let_def)
  next
    case (Inl e)
    have "\<not> ?ok"
    proof
      assume ok: ?ok
      then have "\<forall>c \<in> set calls. function_name c \<noteq> None \<and> parameters c \<noteq> None"
        by (rule valid_calls_complete)
      then obtain out where "optimize_loop calls {} [] = Inr out"
        using optimize_loop_returns by blast
      with ok Inl show False
        by (simp add: optimize_function_sequence_def)
    qed
    with Some gc Inl show ?thesis
      by (simp add: process_query_cases Let_def create_error_response_def)
  qed
qed

text \<open>
  A plan that fails validation has calls; it is repaired call by call and the repaired
  calls go to the optimizer, with no second validation in between or after.
\<close>

lemma process_query_invalid:
  assumes bad: "\<not> fst (validate_function_calls (get_function_calls planned)
                        (get_function_schemas reg))"
  shows "process_query reg planned =
     (case optimize_function_sequence (map fix_call (get_function_calls planned)) of
        Inl e \<Rightarrow> create_error_response (str_of_error e)
      | Inr optimized \<Rightarrow>
          planned\<lparr>function_calls := Some optimized,
                  valid := Some False,
                  errors := Some (snd (validate_function_calls (get_function_calls planned)
                                         (get_function_schemas reg)))\<rparr>)"
proof (cases "function_calls planned")
  case None
  then have "get_function_calls planned = []"
    by (simp add: get_function_calls_def)
  with bad show ?thesis
    by (simp add: validate_function_calls_def Let_def)
next
  case (Some calls)
  then have gc: "get_function_calls planned = calls"
    by (simp add: get_function_calls_def)
  from Some bad show ?thesis
    unfolding gc by (simp add: process_query_cases Let_def)
qed

lemma get_function_empty: "get_function empty_registry n = None"
  by (simp add: get_function_def empty_registry_def)

lemma execute_plan_ignores_valid:
  "results (fst (execute_plan reg engine (p\<lparr>valid := v, errors := es\<rparr>) w))
     = results (fst (execute_plan reg engine p w))
   \<and> snd (snd (execute_plan reg engine (p\<lparr>valid := v, errors := es\<rparr>) w))
     = snd (snd (execute_plan reg engine p w))"
  by (simp add: execute_plan_def get_function_calls_def create_execution_result_def Let_def
      split: prod.splits sum.splits)

lemma unknown_function_result:
  "function_name c = Some n \<Longrightarrow> get_function reg n = None \<Longrightarrow>
   \<not> succeeded (fst (execute_single_function reg ctx c i w))
   \<and> snd (execute_single_function reg ctx c i w) = w"
  by (simp add: execute_single_function_def succeeded_def dict_get_def Let_def)

text \<open>The step of the loop at a call that names an operation the registry does not have.\<close>

lemma unknown_function_step:
  assumes "function_name c = Some n" and "get_function reg n = None"
  shows "execute_calls reg (Call c # rest) i rs ctx w =
     (if is_critical_function c
      then Inr (rs @ [fst (execute_single_function reg ctx c i w)],
                AList.update (''result_'' @ str_of_nat i)
                  (fst (execute_single_function reg ctx c i w)) ctx,
                w)
      else execute_calls reg rest (Suc i)
             (rs @ [fst (execute_single_function reg ctx c i w)])
             (AList.update (''result_'' @ str_of_nat i)
                (fst (execute_single_function reg ctx c i w)) ctx)
             w)"
proof -
  obtain result w1 where single: "execute_single_function reg ctx c i w = (result, w1)"
    by (cases "execute_single_function reg ctx c i w") blast
  with unknown_function_result [OF assms, of ctx i w]
  have "\<not> succeeded result" and "w1 = w" by simp_all
  with single show ?thesis by (simp add: Let_def)
qed

text \<open>
  C7, as the claim states it, fails twice. The repaired plan is not validated again: the
  plan whose call of \<open>read_csv\<close> lacked the file path is complete after the repair and
  would pass validation, and is still marked invalid. And a plan that names an unknown
  operation is not rejected: the pipeline executes it, two results are recorded, and the
  one known operation of the plan has been invoked.
\<close>

theorem revalidation_counterexample:
  "valid (process_query demo_registry repairable_plan) = Some False
   \<and> fst (validate_function_calls
            (get_function_calls (process_query demo_registry repairable_plan))
            (get_function_schemas demo_registry))
   \<and> valid (fst (pipeline_process_query demo_registry new_engine unknown_operation_plan True False 0))
       = Some False
   \<and> map_option (\<lambda>r. length (results r))
        (fst (snd (pipeline_process_query demo_registry new_engine unknown_operation_plan True False 0)))
       = Some 2
   \<and> snd (snd (snd (pipeline_process_query demo_registry new_engine unknown_operation_plan True False 0)))
       = 1"
proof -
  have schemas: "get_function_schemas demo_registry =
     [to_dict echo_op, to_dict read_csv_op, to_dict notify_op]"
    by (simp add: get_function_schemas_def demo_registry_def register_def empty_registry_def
        Let_def echo_op_def read_csv_op_def notify_op_def)
  have p1: "process_query demo_registry repairable_plan =
     \<lparr>plan_text = Some ''demo'',
      function_calls = Some [mk_call ''read_csv'' [(''file_path'', VStr ''data/sample.csv'')]],
      valid = Some False,
      errors = Some [MissingRequiredParameters 1 {''file_path''}],
      error = None\<rparr>"
    by (simp add: process_query_def schemas repairable_plan_def mk_plan_def mk_call_def
        get_function_calls_def validate_function_calls_def validate_call_def is_required_def
        to_dict_def echo_op_def read_csv_op_def notify_op_def fix_common_issues_def fix_call_def
        set_default_def optimize_function_sequence_def call_signature_def Let_def)
  have a: "valid (process_query demo_registry repairable_plan) = Some False"
    by (simp add: p1)
  have b: "fst (validate_function_calls
            (get_function_calls (process_query demo_registry repairable_plan))
            (get_function_schemas demo_registry))"
    by (simp add: p1 schemas get_function_calls_def mk_call_def validate_function_calls_def
        validate_call_def is_required_def to_dict_def echo_op_def read_csv_op_def notify_op_def
        Let_def)
  have p2: "process_query demo_registry unknown_operation_plan =
     unknown_operation_plan\<lparr>valid := Some False,
       errors := Some [UnknownFunction 1 ''no_such_operation'']\<rparr>"
    by (simp add: process_query_def schemas unknown_operation_plan_def mk_plan_def mk_call_def
        get_function_calls_def validate_function_calls_def validate_call_def is_required_def
        to_dict_def echo_op_def read_csv_op_def notify_op_def fix_common_issues_def fix_call_def
        set_default_def optimize_function_sequence_def call_signature_def Let_def)
  let ?p = "plan_items (unknown_operation_plan\<lparr>valid := Some False,
                      errors := Some [UnknownFunction 1 ''no_such_operation'']\<rparr>)"
  have c: "valid (fst (pipeline_process_query demo_registry new_engine unknown_operation_plan True False 0))
       = Some False"
    by (simp add: pipeline_process_query_def p2 Let_def case_prod_beta)
  have run: "map (\<lambda>r. succeeded r)
               (results (fst (execute_plan demo_registry new_engine ?p 0)))
             = [False, True]
     \<and> snd (snd (execute_plan demo_registry new_engine ?p 0)) = 1"
    by (simp add: engine_defs demo_defs plan_items_def unknown_operation_plan_def
        str_of_nat.simps)
  then have len: "length (results (fst (execute_plan demo_registry new_engine ?p 0))) = 2"
    using length_map [of "\<lambda>r. succeeded r"] by (metis length_Cons list.size(3) numeral_2_eq_2)
  have d: "map_option (\<lambda>r. length (results r))
        (fst (snd (pipeline_process_query demo_registry new_engine unknown_operation_plan True False 0)))
       = Some 2"
    using len by (simp add: pipeline_process_query_def p2 Let_def case_prod_beta)
  have e: "snd (snd (snd (pipeline_process_query demo_registry new_engine unknown_operation_plan True False 0)))
       = 1"
    using run by (simp add: pipeline_process_query_def p2 Let_def case_prod_beta)
  from a b c d e show ?thesis by blast
qed

text \<open>
  C7, amended. Whenever validation of the planner's plan fails, the repairer is applied
  to every call and the repaired calls go to the optimizer; the repaired plan is not
  validated again. \<open>process_query\<close> then returns the repaired and optimized plan with
  \<open>valid\<close> false and the errors of the validation made before the repair, or, when the
  optimizer raises, the error response, which has no calls, \<open>valid\<close> false and no errors.
  In every case \<open>valid\<close> is the outcome of the validation made before any repair. The
  pipeline hands the processed plan to the engine whatever \<open>valid\<close> says, and the engine
  does not read it: results and final state of the world do not depend on \<open>valid\<close> and
  \<open>errors\<close>. A call that names an operation the registry does not have is recorded as
  an unsuccessful result and nothing is invoked for it; after it the run stops when the
  name is a critical one and goes on with the next item otherwise.
\<close>

theorem repaired_plan_not_revalidated:
  "(\<not> fst (validate_function_calls (get_function_calls planned) (get_function_schemas reg)) \<longrightarrow>
      process_query reg planned =
        (case optimize_function_sequence (map fix_call (get_function_calls planned)) of
           Inl e \<Rightarrow> create_error_response (str_of_error e)
         | Inr optimized \<Rightarrow>
             planned\<lparr>function_calls := Some optimized,
                     valid := Some False,
                     errors := Some (snd (validate_function_calls (get_function_calls planned)
                                            (get_function_schemas reg)))\<rparr>))
   \<and> function_calls (create_error_response msg) = Some []
   \<and> valid (create_error_response msg) = Some False
   \<and> errors (create_error_response msg) = None
   \<and> valid (process_query reg planned)
       = Some (fst (validate_function_calls (get_function_calls planned) (get_function_schemas reg)))
   \<and> fst (snd (pipeline_process_query reg engine planned True False w))
       = Some (fst (execute_plan reg engine (plan_items (process_query reg planned)) w))
   \<and> results (fst (execute_plan reg engine (p\<lparr>valid := v, errors := es\<rparr>) w))
       = results (fst (execute_plan reg engine p w))
   \<and> snd (snd (execute_plan reg engine (p\<lparr>valid := v, errors := es\<rparr>) w))
       = snd (snd (execute_plan reg engine p w))
   \<and> (function_name c = Some n \<and> get_function reg n = None \<longrightarrow>
        \<not> succeeded (fst (execute_single_function reg ctx c i w))
        \<and> snd (execute_single_function reg ctx c i w) = w
        \<and> execute_calls reg (Call c # rest) i rs ctx w =
            (if is_critical_function c
             then Inr (rs @ [fst (execute_single_function reg ctx c i w)],
                       AList.update (''result_'' @ str_of_nat i)
                         (fst (execute_single_function reg ctx c i w)) ctx,
                       w)
             else execute_calls reg rest (Suc i)
                    (rs @ [fst (execute_single_function reg ctx c i w)])
                    (AList.update (''result_'' @ str_of_nat i)
                       (fst (execute_single_function reg ctx c i w)) ctx)
                    w))"
proof -
  have pipe: "fst (snd (pipeline_process_query reg engine planned True False w))
       = Some (fst (execute_plan reg engine (plan_items (process_query reg planned)) w))"
    by (simp add: pipeline_process_query_def Let_def case_prod_beta)
  have resp: "function_calls (create_error_response msg) = Some []
      \<and> valid (create_error_response msg) = Some False
      \<and> errors (create_error_response msg) = None"
    by (simp add: create_error_response_def)
  note inv = process_query_invalid [of planned reg]
  note val = process_query_valid [of reg planned]
  note ign = execute_plan_ignores_valid [where reg = reg and engine = engine and p = p
      and v = v and es = es and w = w]
  note unk = unknown_function_result [where c = c and n = n and reg = reg and ctx = ctx
      and i = i and w = w]
  note step = unknown_function_step [where c = c and n = n and reg = reg and ctx = ctx
      and i = i and w = w and rest = rest and rs = rs]
  from pipe resp inv val ign unk step show ?thesis
    by blast
qed

theorem repaired_plan_not_revalidated_witness:
  "\<not> fst (validate_function_calls (get_function_calls repairable_plan)
           (get_function_schemas demo_registry))
   \<and> process_query demo_registry repairable_plan =
       repairable_plan
         \<lparr>function_calls := Some [mk_call ''read_csv'' [(''file_path'', VStr ''data/sample.csv'')]],
          valid := Some False,
          errors := Some [MissingRequiredParameters 1 {''file_path''}]\<rparr>
   \<and> function_name read_json_call = Some ''read_json''
   \<and> get_function demo_registry ''read_json'' = None
   \<and> is_critical_function read_json_call
   \<and> \<not> succeeded (fst (execute_single_function demo_registry [] read_json_call 0 0))
   \<and> map_sum id (\<lambda>(rs, ctx, w). (length rs, w))
        (execute_calls demo_registry
           [Call read_json_call, Call (mk_call ''echo'' [(''value'', VInt 1)])] 0 [] [] 0)
       = Inr (1, 0)"
proof -
  have n: "function_name read_json_call = Some ''read_json''"
    by (simp add: read_json_call_def mk_call_def)
  have g: "get_function demo_registry ''read_json'' = None"
    by (simp add: demo_registry_def get_function_register get_function_empty
        echo_op_def read_csv_op_def notify_op_def)
  have crit: "is_critical_function read_json_call"
    by (simp add: read_json_call_def mk_call_def is_critical_function_def critical_functions_def)
  have v: "\<not> fst (validate_function_calls (get_function_calls repairable_plan)
                   (get_function_schemas demo_registry))"
    by (simp add: repairable_plan_def mk_plan_def mk_call_def get_function_calls_def
        validate_function_calls_def validate_call_def is_required_def get_function_schemas_def
        to_dict_def demo_defs register_def empty_registry_def Let_def)
  have errs: "snd (validate_function_calls (get_function_calls repairable_plan)
                   (get_function_schemas demo_registry))
              = [MissingRequiredParameters 1 {''file_path''}]"
    by (simp add: repairable_plan_def mk_plan_def mk_call_def get_function_calls_def
        validate_function_calls_def validate_call_def is_required_def get_function_schemas_def
        to_dict_def demo_defs register_def empty_registry_def Let_def)
  have fixed: "optimize_function_sequence (map fix_call (get_function_calls repairable_plan))
      = Inr [mk_call ''read_csv'' [(''file_path'', VStr ''data/sample.csv'')]]"
    by (simp add: repairable_plan_def mk_plan_def get_function_calls_def
        optimize_function_sequence_def fix_call_def set_default_def mk_call_def
        call_signature_def Let_def)
  note inst = repaired_plan_not_revalidated
         [where reg = demo_registry and planned = repairable_plan and engine = new_engine
            and w = 0 and p = "plan_items repairable_plan" and v = None and es = None
            and c = read_json_call and n = "''read_json''"
            and ctx = "[]" and i = 0 and rs = "[]"
            and rest = "[Call (mk_call ''echo'' [(''value'', VInt 1)])]" and msg = "[]"]
  from inst v errs fixed
  have pq: "process_query demo_registry repairable_plan =
       repairable_plan
         \<lparr>function_calls := Some [mk_call ''read_csv'' [(''file_path'', VStr ''data/sample.csv'')]],
          valid := Some False,
          errors := Some [MissingRequiredParameters 1 {''file_path''}]\<rparr>"
    by simp
  from inst n g crit
  have unk: "\<not> succeeded (fst (execute_single_function demo_registry [] read_json_call 0 0))"
    and step: "map_sum id (\<lambda>(rs, ctx, w). (length rs, w))
        (execute_calls demo_registry
           [Call read_json_call, Call (mk_call ''echo'' [(''value'', VInt 1)])] 0 [] [] 0)
       = Inr (1, 0)"
    by simp_all
  from v pq n g crit unk step show ?thesis by blast
qed

section \<open>Reference resolution\<close>

lemma contains_subset: "contains s sub \<Longrightarrow> set sub \<subseteq> set s"
proof (induction s)
  case Nil
  then show ?case by simp
next
  case (Cons c cs)
  from Cons.prems have "prefix sub (c # cs) \<or> contains cs sub" by simp
  then show ?case
  proof
    assume "prefix sub (c # cs)"
    then show ?thesis by (rule set_mono_prefix)
  next
    assume "contains cs sub"
    with Cons.IH show ?thesis by auto
  qed
qed

lemma scan_context_no_match:
  "\<forall>k \<in> set (map fst ctx). \<not> contains k reference \<Longrightarrow> scan_context ctx reference = VNone"
  by (induction ctx) auto

text \<open>
  No key of the context holds a dot (the keys are \<open>result_<i>\<close>), so a reference that
  starts with \<open>result_\<close> and holds a dot is no key and is part of no key: it resolves to
  \<open>None\<close>, whatever the context has recorded.
\<close>

lemma dotted_result_reference_none:
  assumes dot: "CHR ''.'' \<in> set reference"
    and pre: "prefix ''result_'' reference"
    and keys: "\<forall>k \<in> set (map fst ctx). CHR ''.'' \<notin> set k"
  shows "resolve_reference ctx reference = VNone"
proof -
  have ne: "reference \<noteq> ''output_from_previous''"
    using dot by auto
  have nokey: "reference \<notin> set (map fst ctx)"
    using dot keys by auto
  then have look: "map_of ctx reference = None"
    by (simp add: map_of_eq_None_iff)
  have "\<forall>k \<in> set (map fst ctx). \<not> contains k reference"
    using contains_subset dot keys by blast
  then have "scan_context ctx reference = VNone"
    by (rule scan_context_no_match)
  with ne pre look show ?thesis
    by (simp add: resolve_reference_def)
qed

lemma digit_char_no_dot: "d < 10 \<Longrightarrow> digit_char d \<noteq> CHR ''.''"
proof -
  assume "d < 10"
  then have "d \<in> {0, 1, 2, 3, 4, 5, 6, 7, 8, 9}" by auto
  then show ?thesis
    by (auto simp: digit_char_def)
qed

lemma str_of_nat_no_dot: "CHR ''.'' \<notin> set (str_of_nat n)"
proof (induction n rule: str_of_nat.induct)
  case (1 n)
  show ?case
  proof (cases "n < 10")
    case True
    with digit_char_no_dot [of n] show ?thesis
      by (subst str_of_nat.simps) auto
  next
    case False
    with 1 digit_char_no_dot [of "n mod 10"] show ?thesis
      by (subst str_of_nat.simps) auto
  qed
qed

text \<open>
  The loop of the engine only adds keys \<open>result_<i>\<close>, which hold no dot, whether it ends
  with an exception or without.
\<close>

lemma execute_calls_keys:
  "execute_calls reg items i rs ctx w = outcome \<Longrightarrow>
   \<forall>k \<in> set (map fst ctx). CHR ''.'' \<notin> set k \<Longrightarrow>
   \<forall>k \<in> set (map fst (case outcome of Inl (e, ctx', w') \<Rightarrow> ctx' | Inr (rs', ctx', w') \<Rightarrow> ctx')).
      CHR ''.'' \<notin> set k"
proof (induction items arbitrary: i rs ctx w)
  case Nil
  then show ?case by auto
next
  case (Cons item rest)
  show ?case
  proof (cases item)
    case (NotDict x)
    with Cons.prems show ?thesis by auto
  next
    case (Call c)
    obtain result w1 where single: "execute_single_function reg ctx c i w = (result, w1)"
      by (cases "execute_single_function reg ctx c i w") blast
    let ?ctx1 = "AList.update (''result_'' @ str_of_nat i) result ctx"
    have keys1: "\<forall>k \<in> set (map fst ?ctx1). CHR ''.'' \<notin> set k"
      using Cons.prems(2) str_of_nat_no_dot [of i] by (auto simp: AList.dom_update)
    show ?thesis
    proof (cases "\<not> succeeded result \<and> is_critical_function c")
      case True
      with Cons.prems(1) Call single have "outcome = Inr (rs @ [result], ?ctx1, w1)"
        by (simp add: Let_def)
      with keys1 show ?thesis by simp
    next
      case False
      with Cons.prems(1) Call single
      have "execute_calls reg rest (Suc i) (rs @ [result]) ?ctx1 w1 = outcome"
        by (auto simp: Let_def)
      from Cons.IH [OF this keys1] show ?thesis .
    qed
  qed
qed

lemma engine_dotted_reference_none:
  assumes "execute_calls reg items 0 [] [] w = Inr (rs, ctx, w')
           \<or> execute_calls reg items 0 [] [] w = Inl (e, ctx, w')"
    and "CHR ''.'' \<in> set path_reference" and "prefix ''result_'' path_reference"
  shows "resolve_reference ctx path_reference = VNone"
proof -
  have "\<forall>k \<in> set (map fst ctx). CHR ''.'' \<notin> set k"
    using assms(1) execute_calls_keys [of reg items 0 "[]" "[]" w] by auto
  with assms(2,3) show ?thesis
    by (intro dotted_result_reference_none)
qed

text \<open>
  C1. On the context of the repository's own test, the reference \<open>result_0.data\<close>
  resolves to \<open>None\<close>, although the result recorded under \<open>result_0\<close> has the field
  \<open>data\<close>: the reference starts with \<open>result_\<close>, so the second branch of the chain is
  taken and the branch that walks dotted paths is never reached. The walk itself, on
  the same input, reaches the value.
\<close>

theorem dotted_reference_resolves_to_none:
  "resolve_reference test_context ''result_0.data'' = VNone
   \<and> process_parameters test_context [(''text'', VStr ''{{result_0.data}}'')] = [(''text'', VNone)]
   \<and> walk_parts (context_value test_context) (split_on CHR ''.'' ''result_0.data'')
       = VStr ''test_data''"
  by (simp add: resolve_reference_def process_parameters_def resolve_value_def test_context_def
      context_value_def strip_def is_space_def suffix_to_prefix)

text \<open>
  C2. In the run of the twelve calls, the last call asks for the output of the previous
  call. Eleven results are in the context then, the latest under \<open>result_10\<close> with the
  data 10; the greatest key as a string is \<open>result_9\<close>, and the reference resolves to
  its data, 9.
\<close>

theorem previous_is_not_latest:
  "map (\<lambda>r. map_of r ''data'')
     (drop 9 (results (fst (execute_plan demo_registry new_engine
                              (mk_plan (map Call twelve_calls)) 0))))
   = [Some (VInt 9), Some (VInt 10), Some (VInt 9)]
   \<and> py_max (map (\<lambda>i. ''result_'' @ str_of_nat i) [0, 1, 2, 3, 4, 5, 6, 7, 8, 9, 10])
       = Some ''result_9''"
  by (simp add: engine_defs demo_defs twelve_calls_def str_of_nat.simps digit_char_def)

end
